theory Spec2Isabelle
  imports Complex_Main
begin

unbundle bit_operations_syntax

section \<open>Python values used by \<^verbatim>\<open>server/scripts/extract_pdf_text.py\<close>\<close>

text \<open>
  A Python \<^verbatim>\<open>str\<close> is a sequence of Unicode code points, and \<^verbatim>\<open>len\<close> counts code
  points. A string is therefore a list of code points, each a natural number.
\<close>

type_synonym pystr = "nat list"

text \<open>An ASCII literal of the source, as a Python string.\<close>

definition ascii :: "string \<Rightarrow> pystr" where
  "ascii s = map of_char s"

text \<open>
  The values stored in the result dictionaries: \<^verbatim>\<open>True\<close>/\<^verbatim>\<open>False\<close>, a string,
  an integer (the result of \<^verbatim>\<open>len\<close>) and \<^verbatim>\<open>None\<close>.
\<close>

datatype pyval = PyBool bool | PyStr pystr | PyInt int | PyNone

text \<open>
  A dictionary literal keeps its keys in insertion order, which is also the order in
  which \<^verbatim>\<open>json.dumps\<close> writes them: an association list.
\<close>

type_synonym pydict = "(pystr \<times> pyval) list"

text \<open>Truth value of an object, as \<^verbatim>\<open>if\<close>, \<^verbatim>\<open>not\<close> and the conditional expression test it.\<close>

fun truthy :: "pyval \<Rightarrow> bool" where
  "truthy (PyBool b) = b"
| "truthy (PyStr s) = (s \<noteq> [])"
| "truthy (PyInt i) = (i \<noteq> 0)"
| "truthy PyNone = False"

subsection \<open>\<^verbatim>\<open>str.strip()\<close>\<close>

text \<open>
  \<^verbatim>\<open>str.strip()\<close> without argument removes the leading and trailing characters for
  which \<^verbatim>\<open>str.isspace\<close> holds. These are the code points of CPython's
  \<^verbatim>\<open>_PyUnicode_IsWhitespace\<close>.
\<close>

definition py_isspace :: "nat \<Rightarrow> bool" where
  "py_isspace c \<longleftrightarrow>
     (0x09 \<le> c \<and> c \<le> 0x0D) \<or> (0x1C \<le> c \<and> c \<le> 0x20) \<or> c = 0x85 \<or> c = 0xA0 \<or>
     c = 0x1680 \<or> (0x2000 \<le> c \<and> c \<le> 0x200A) \<or> c = 0x2028 \<or> c = 0x2029 \<or>
     c = 0x202F \<or> c = 0x205F \<or> c = 0x3000"

definition py_lstrip :: "pystr \<Rightarrow> pystr" where
  "py_lstrip s = dropWhile py_isspace s"

definition py_rstrip :: "pystr \<Rightarrow> pystr" where
  "py_rstrip s = rev (dropWhile py_isspace (rev s))"

definition py_strip :: "pystr \<Rightarrow> pystr" where
  "py_strip s = py_rstrip (py_lstrip s)"

section \<open>The external extractor\<close>

text \<open>
  The layout parameters the script builds with \<^verbatim>\<open>LAParams(...)\<close>: the five keyword
  arguments of the call, with the decimal literals of the source.
\<close>

record LAParams =
  line_margin :: real
  word_margin :: real
  char_margin :: real
  boxes_flow :: real
  all_texts :: bool

text \<open>
  \<^verbatim>\<open>pdfminer.high_level.extract_text\<close> is not part of the repository. A call either
  returns the extracted text or raises an exception \<^verbatim>\<open>e\<close>, an instance of
  \<^verbatim>\<open>Exception\<close> (the class of all errors), of which the script only reads
  \<^verbatim>\<open>str(e)\<close>; \<open>Raised\<close> carries that string. The extractor is a parameter of the
  model, applied to the path and the layout parameters. The interruption of the process
  from outside (\<^verbatim>\<open>KeyboardInterrupt\<close>, a signal) is not an outcome of the call.
\<close>

datatype outcome = Returned pystr | Raised pystr

type_synonym extractor = "pystr \<Rightarrow> LAParams \<Rightarrow> outcome"

section \<open>The process\<close>

text \<open>
  What the process does to its environment: the characters written to standard output,
  and the calls made to the external extractor, in order.
\<close>

record world =
  stdout :: pystr
  extract_calls :: "(pystr \<times> LAParams) list"

text \<open>
  How \<^verbatim>\<open>main\<close> ends: \<^verbatim>\<open>sys.exit(n)\<close>, or an exception that nothing catches
  (\<^verbatim>\<open>result["success"]\<close> raises \<^verbatim>\<open>KeyError\<close> on a dictionary without that key).
\<close>

datatype ending = SysExit nat | UncaughtKeyError pystr

text \<open>\<^verbatim>\<open>print(s)\<close> writes \<^verbatim>\<open>s\<close> and a newline to standard output.\<close>

definition print :: "pystr \<Rightarrow> world \<Rightarrow> world" where
  "print s w = w\<lparr>stdout := stdout w @ s @ [0x0A]\<rparr>"

subsection \<open>\<^verbatim>\<open>extract_pdf_text\<close>\<close>

text \<open>
  The function builds the layout parameters, calls the extractor once, and returns a
  dictionary on each of its three paths; the \<^verbatim>\<open>except Exception\<close> clause is the
  \<open>Raised\<close> case. The test \<^verbatim>\<open>not text or not text.strip()\<close> is on strings, which are
  false exactly when empty.
\<close>

definition extract_pdf_text :: "extractor \<Rightarrow> pystr \<Rightarrow> world \<Rightarrow> pydict \<times> world" where
  "extract_pdf_text extract_text pdf_path w =
    (let laparams = \<lparr>line_margin = 0.5, word_margin = 0.1, char_margin = 2.0,
                      boxes_flow = 0.5, all_texts = False\<rparr>;
         w' = w\<lparr>extract_calls := extract_calls w @ [(pdf_path, laparams)]\<rparr>
     in case extract_text pdf_path laparams of
          Raised e \<Rightarrow>
            ([(ascii ''success'', PyBool False),
              (ascii ''error'', PyStr (ascii ''PDF extraction failed: '' @ e)),
              (ascii ''text'', PyStr [])], w')
        | Returned text \<Rightarrow>
            if text = [] \<or> py_strip text = [] then
              ([(ascii ''success'', PyBool False),
                (ascii ''error'', PyStr (ascii ''No text content found in PDF'')),
                (ascii ''text'', PyStr [])], w')
            else
              (let cleaned_text = py_strip text
               in ([(ascii ''success'', PyBool True),
                    (ascii ''text'', PyStr cleaned_text),
                    (ascii ''length'', PyInt (int (length cleaned_text))),
                    (ascii ''error'', PyNone)], w')))"

subsection \<open>\<^verbatim>\<open>json.dumps\<close>\<close>

text \<open>
  \<^verbatim>\<open>json.dumps\<close> is called with its default arguments: \<^verbatim>\<open>ensure_ascii=True\<close>, the
  separators \<^verbatim>\<open>", "\<close> and \<^verbatim>\<open>": "\<close>, no indentation. The model follows CPython's
  \<^verbatim>\<open>json.encoder\<close> for the four kinds of value the script stores.
\<close>

text \<open>Lower-case hexadecimal and decimal digits.\<close>

definition hexdigit :: "nat \<Rightarrow> nat" where
  "hexdigit d = (if d < 10 then 0x30 + d else 0x57 + d)"

fun hex_digits :: "nat \<Rightarrow> pystr" where
  "hex_digits n = (if n < 16 then [hexdigit n] else hex_digits (n div 16) @ [hexdigit (n mod 16)])"

fun dec_digits :: "nat \<Rightarrow> pystr" where
  "dec_digits n = (if n < 10 then [0x30 + n] else dec_digits (n div 10) @ [0x30 + n mod 10])"

declare hex_digits.simps [simp del]

declare dec_digits.simps [simp del]

text \<open>\<^verbatim>\<open>'{0:04x}'.format(n)\<close>: hexadecimal, padded with zeros to at least four digits.\<close>

definition format_04x :: "nat \<Rightarrow> pystr" where
  "format_04x n = replicate (4 - length (hex_digits n)) 0x30 @ hex_digits n"

text \<open>\<^verbatim>\<open>str(i)\<close> of an integer, as the encoder writes it.\<close>

definition int_repr :: "int \<Rightarrow> pystr" where
  "int_repr i = (if i < 0 then 0x2D # dec_digits (nat (- i)) else dec_digits (nat i))"

text \<open>
  \<^verbatim>\<open>py_encode_basestring_ascii\<close>: the pattern \<^verbatim>\<open>([\\"]|[^\ -~])\<close> selects the
  characters to replace; \<^verbatim>\<open>replace\<close> looks the character up in \<^verbatim>\<open>ESCAPE_DCT\<close>
  (the short escapes, and \<^verbatim>\<open>\u00XX\<close> for the other control characters), and
  otherwise writes \<^verbatim>\<open>\uXXXX\<close>, as a surrogate pair above the basic plane.
\<close>

definition replace :: "nat \<Rightarrow> pystr" where
  "replace c =
     (if c = 0x5C then [0x5C, 0x5C]
      else if c = 0x22 then [0x5C, 0x22]
      else if c = 0x08 then [0x5C, 0x62]
      else if c = 0x0C then [0x5C, 0x66]
      else if c = 0x0A then [0x5C, 0x6E]
      else if c = 0x0D then [0x5C, 0x72]
      else if c = 0x09 then [0x5C, 0x74]
      else if c < 0x10000 then [0x5C, 0x75] @ format_04x c
      else (let n = c - 0x10000;
                s1 = 0xD800 OR (drop_bit 10 n AND 0x3FF);
                s2 = 0xDC00 OR (n AND 0x3FF)
            in [0x5C, 0x75] @ format_04x s1 @ [0x5C, 0x75] @ format_04x s2))"

definition escape_ascii :: "nat \<Rightarrow> bool" where
  "escape_ascii c \<longleftrightarrow> c = 0x5C \<or> c = 0x22 \<or> c < 0x20 \<or> 0x7E < c"

definition py_encode_basestring_ascii :: "pystr \<Rightarrow> pystr" where
  "py_encode_basestring_ascii s =
     [0x22] @ concat (map (\<lambda>c. if escape_ascii c then replace c else [c]) s) @ [0x22]"

fun json_encode :: "pyval \<Rightarrow> pystr" where
  "json_encode PyNone = ascii ''null''"
| "json_encode (PyBool True) = ascii ''true''"
| "json_encode (PyBool False) = ascii ''false''"
| "json_encode (PyInt i) = int_repr i"
| "json_encode (PyStr s) = py_encode_basestring_ascii s"

text \<open>\<^verbatim>\<open>sep.join(xs)\<close>.\<close>

fun join :: "pystr \<Rightarrow> pystr list \<Rightarrow> pystr" where
  "join sep [] = []"
| "join sep [x] = x"
| "join sep (x # y # ys) = x @ sep @ join sep (y # ys)"

definition json_item :: "pystr \<times> pyval \<Rightarrow> pystr" where
  "json_item kv = py_encode_basestring_ascii (fst kv) @ ascii '': '' @ json_encode (snd kv)"

definition json_dumps :: "pydict \<Rightarrow> pystr" where
  "json_dumps d =
     (if d = [] then ascii ''{}''
      else [0x7B] @ join (ascii '', '') (map json_item d) @ [0x7D])"

subsection \<open>\<^verbatim>\<open>main\<close>\<close>

text \<open>
  \<^verbatim>\<open>sys.argv\<close> is the script name followed by the command-line arguments, so one path
  argument is a list of length two.
\<close>

definition main :: "extractor \<Rightarrow> pystr list \<Rightarrow> world \<Rightarrow> ending \<times> world" where
  "main extract_text argv w =
    (if length argv \<noteq> 2 then
       (let result = [(ascii ''success'', PyBool False),
                      (ascii ''error'',
                       PyStr (ascii ''Usage: python extract_pdf_text.py <pdf_file_path>'')),
                      (ascii ''text'', PyStr [])]
        in (SysExit 1, print (json_dumps result) w))
     else
       (let pdf_path = argv ! 1;
            (result, w1) = extract_pdf_text extract_text pdf_path w;
            w2 = print (json_dumps result) w1
        in case map_of result (ascii ''success'') of
             None \<Rightarrow> (UncaughtKeyError (ascii ''success''), w2)
           | Some v \<Rightarrow> (SysExit (if truthy v then 0 else 1), w2)))"

section \<open>Well-formed JSON texts\<close>

text \<open>
  A recogniser for the JSON grammar of RFC 8259, restricted to the texts that are one
  object whose member values are strings, integers, \<^verbatim>\<open>true\<close>, \<^verbatim>\<open>false\<close> or
  \<^verbatim>\<open>null\<close>. Each function consumes a prefix of its input and returns the rest.
\<close>

definition json_ws :: "nat \<Rightarrow> bool" where
  "json_ws c \<longleftrightarrow> c = 0x20 \<or> c = 0x09 \<or> c = 0x0A \<or> c = 0x0D"

definition skip_ws :: "pystr \<Rightarrow> pystr" where
  "skip_ws s = dropWhile json_ws s"

definition is_digit :: "nat \<Rightarrow> bool" where
  "is_digit c \<longleftrightarrow> 0x30 \<le> c \<and> c \<le> 0x39"

definition is_hex :: "nat \<Rightarrow> bool" where
  "is_hex c \<longleftrightarrow> (0x30 \<le> c \<and> c \<le> 0x39) \<or> (0x41 \<le> c \<and> c \<le> 0x46) \<or> (0x61 \<le> c \<and> c \<le> 0x66)"

text \<open>The second character of a two-character escape: one of \<^verbatim>\<open>" \ / b f n r t\<close>.\<close>

definition is_escape :: "nat \<Rightarrow> bool" where
  "is_escape c \<longleftrightarrow> c \<in> {0x22, 0x5C, 0x2F, 0x62, 0x66, 0x6E, 0x72, 0x74}"

text \<open>
  The characters of a string after its opening quotation mark, up to and including the
  closing one. An unescaped character is any code point from \<^verbatim>\<open>U+0020\<close> on except the
  quotation mark and the backslash.
\<close>

fun json_chars :: "pystr \<Rightarrow> pystr option" where
  "json_chars [] = None"
| "json_chars (c # cs) =
     (if c = 0x22 then Some cs
      else if c = 0x5C then
        (case cs of
           [] \<Rightarrow> None
         | e # r \<Rightarrow>
             if is_escape e then json_chars r
             else if e = 0x75 then
               (case r of
                  h1 # h2 # h3 # h4 # r' \<Rightarrow>
                    if is_hex h1 \<and> is_hex h2 \<and> is_hex h3 \<and> is_hex h4 then json_chars r'
                    else None
                | _ \<Rightarrow> None)
             else None)
      else if 0x20 \<le> c \<and> c \<le> 0x10FFFF then json_chars cs
      else None)"

definition json_string :: "pystr \<Rightarrow> pystr option" where
  "json_string s = (case s of [] \<Rightarrow> None | c # r \<Rightarrow> if c = 0x22 then json_chars r else None)"

text \<open>An integer: an optional minus sign, then \<^verbatim>\<open>0\<close> or a digit from 1 to 9 and more digits.\<close>

definition json_int :: "pystr \<Rightarrow> pystr option" where
  "json_int s =
     (case s of
        [] \<Rightarrow> None
      | d # r \<Rightarrow>
          if d = 0x30 then Some r
          else if 0x31 \<le> d \<and> d \<le> 0x39 then Some (dropWhile is_digit r)
          else None)"

definition json_number :: "pystr \<Rightarrow> pystr option" where
  "json_number s =
     (case s of [] \<Rightarrow> None | c # r \<Rightarrow> if c = 0x2D then json_int r else json_int s)"

definition json_literal :: "pystr \<Rightarrow> pystr \<Rightarrow> pystr option" where
  "json_literal lit s =
     (if take (length lit) s = lit then Some (drop (length lit) s) else None)"

definition json_value :: "pystr \<Rightarrow> pystr option" where
  "json_value s =
     (case s of
        [] \<Rightarrow> None
      | c # r \<Rightarrow>
          if c = 0x22 then json_string s
          else if c = 0x74 then json_literal (ascii ''true'') s
          else if c = 0x66 then json_literal (ascii ''false'') s
          else if c = 0x6E then json_literal (ascii ''null'') s
          else json_number s)"

text \<open>A member: a string, a colon, a value, with optional white space around the colon.\<close>

definition json_member :: "pystr \<Rightarrow> pystr option" where
  "json_member s =
     (case json_string s of
        None \<Rightarrow> None
      | Some r \<Rightarrow>
          (case skip_ws r of
             [] \<Rightarrow> None
           | c # r' \<Rightarrow> if c = 0x3A then json_value (skip_ws r') else None))"

text \<open>
  The members of an object and its closing brace. The first argument bounds the number
  of members; every member consumes at least one character, so the length of the input
  is enough.
\<close>

fun json_members :: "nat \<Rightarrow> pystr \<Rightarrow> pystr option" where
  "json_members 0 s = None"
| "json_members (Suc n) s =
     (case json_member s of
        None \<Rightarrow> None
      | Some r \<Rightarrow>
          (case skip_ws r of
             [] \<Rightarrow> None
           | c # r' \<Rightarrow>
               if c = 0x7D then Some r'
               else if c = 0x2C then json_members n (skip_ws r')
               else None))"

definition json_object :: "pystr \<Rightarrow> pystr option" where
  "json_object s =
     (case s of
        [] \<Rightarrow> None
      | c # r \<Rightarrow>
          if c \<noteq> 0x7B then None
          else (case skip_ws r of
                  [] \<Rightarrow> None
                | c' # r' \<Rightarrow>
                    if c' = 0x7D then Some r' else json_members (length r) (skip_ws r)))"

text \<open>A JSON text that is one object: white space, the object, white space.\<close>

definition is_json_object :: "pystr \<Rightarrow> bool" where
  "is_json_object s \<longleftrightarrow>
     (case json_object (skip_ws s) of None \<Rightarrow> False | Some r \<Rightarrow> skip_ws r = [])"

section \<open>Result records and sample inputs\<close>

text \<open>The layout parameters of the source, for stating what the extractor is called with.\<close>

abbreviation LAPARAMS :: LAParams where
  "LAPARAMS \<equiv> \<lparr>line_margin = 0.5, word_margin = 0.1, char_margin = 2.0,
                      boxes_flow = 0.5, all_texts = False\<rparr>"

text \<open>The dictionary that \<^verbatim>\<open>main\<close> builds when the argument count is wrong.\<close>

abbreviation usage_result :: pydict where
  "usage_result \<equiv>
     [(ascii ''success'', PyBool False),
      (ascii ''error'', PyStr (ascii ''Usage: python extract_pdf_text.py <pdf_file_path>'')),
      (ascii ''text'', PyStr [])]"

text \<open>
  The shape of an ExtractionResult: \<^verbatim>\<open>success\<close> is a boolean. On success \<^verbatim>\<open>error\<close> is
  absent or \<^verbatim>\<open>None\<close>, \<^verbatim>\<open>text\<close> is a string and \<^verbatim>\<open>length\<close> is its number of
  characters. On failure \<^verbatim>\<open>error\<close> is a string, \<^verbatim>\<open>text\<close> is the empty string and
  there is no \<^verbatim>\<open>length\<close>. A dictionary has each key once.
\<close>

definition is_extraction_result :: "pydict \<Rightarrow> bool" where
  "is_extraction_result r \<longleftrightarrow>
     distinct (map fst r) \<and>
     (case map_of r (ascii ''success'') of
        Some (PyBool True) \<Rightarrow>
          (map_of r (ascii ''error'') = None \<or> map_of r (ascii ''error'') = Some PyNone) \<and>
          (case map_of r (ascii ''text'') of
             Some (PyStr t) \<Rightarrow> map_of r (ascii ''length'') = Some (PyInt (int (length t)))
           | _ \<Rightarrow> False)
      | Some (PyBool False) \<Rightarrow>
          (case map_of r (ascii ''error'') of Some (PyStr e) \<Rightarrow> True | _ \<Rightarrow> False) \<and>
          map_of r (ascii ''text'') = Some (PyStr []) \<and>
          map_of r (ascii ''length'') = None
      | _ \<Rightarrow> False)"

text \<open>
  Sample extractors and the initial state of a process: an extractor that finds text,
  one that finds only white space, and one whose call raises.
\<close>

definition some_text :: extractor where "some_text p l = Returned (ascii ''  Hello PDF  '')"

definition blank_text :: extractor where "blank_text p l = Returned (ascii ''   '')"

definition no_file :: extractor where "no_file p l = Raised (ascii ''No such file'')"

text \<open>
  An extractor that tells the layout parameters of the source from all others: it
  returns text when called with them and raises when called with anything else.
\<close>

definition strict_params :: extractor where
  "strict_params p l =
     (if l = \<lparr>line_margin = 0.5, word_margin = 0.1, char_margin = 2.0,
                boxes_flow = 0.5, all_texts = False\<rparr>
      then Returned (ascii ''ok'') else Raised (ascii ''other parameters''))"

text \<open>The state of a process that has written nothing and called nothing.\<close>

definition w0 :: world where "w0 = \<lparr>stdout = [], extract_calls = []\<rparr>"

text \<open>The argument vector of a call with one path argument.\<close>

definition argv1 :: "pystr list" where
  "argv1 = [ascii ''extract_pdf_text.py'', ascii ''a.pdf'']"

text \<open>
  What may follow a number in a JSON text: the end of the input or a character that is
  not a digit, so that the number read is the whole number.
\<close>

definition delimited :: "pystr \<Rightarrow> bool" where
  "delimited rest \<longleftrightarrow> (case rest of [] \<Rightarrow> True | c # _ \<Rightarrow> \<not> is_digit c)"

text \<open>The printable ASCII characters, from the space to the tilde.\<close>

definition is_printable :: "nat \<Rightarrow> bool" where
  "is_printable c \<longleftrightarrow> 0x20 \<le> c \<and> c \<le> 0x7E"

section \<open>Properties of \<^verbatim>\<open>str.strip()\<close>\<close>

lemma py_rstrip_decomp: "s = py_rstrip s @ rev (takeWhile py_isspace (rev s))"
  by (simp add: py_rstrip_def flip: rev_append)

lemma py_lstrip_decomp: "s = takeWhile py_isspace s @ py_lstrip s"
  by (simp add: py_lstrip_def)

lemma py_strip_decomp:
  "s = takeWhile py_isspace s @ py_strip s @ rev (takeWhile py_isspace (rev (py_lstrip s)))"
  using py_rstrip_decomp [of "py_lstrip s"] py_lstrip_decomp [of s]
  by (simp add: py_strip_def)

lemma py_rstrip_last: "py_rstrip s \<noteq> [] \<Longrightarrow> \<not> py_isspace (last (py_rstrip s))"
  by (simp add: py_rstrip_def last_rev hd_dropWhile)

lemma py_lstrip_hd: "py_lstrip s \<noteq> [] \<Longrightarrow> \<not> py_isspace (hd (py_lstrip s))"
  by (simp add: py_lstrip_def hd_dropWhile)

lemma py_rstrip_hd: "py_rstrip s \<noteq> [] \<Longrightarrow> hd (py_rstrip s) = hd s"
  using py_rstrip_decomp [of s] by (metis hd_append2)

lemma py_rstrip_Nil: "py_rstrip [] = []"
  by (simp add: py_rstrip_def)

lemma py_strip_hd: "py_strip s \<noteq> [] \<Longrightarrow> \<not> py_isspace (hd (py_strip s))"
  unfolding py_strip_def
  using py_rstrip_hd [of "py_lstrip s"] py_lstrip_hd [of s] py_rstrip_Nil by metis

lemma py_strip_last: "py_strip s \<noteq> [] \<Longrightarrow> \<not> py_isspace (last (py_strip s))"
  unfolding py_strip_def by (rule py_rstrip_last)

lemma py_lstrip_id: "s = [] \<or> \<not> py_isspace (hd s) \<Longrightarrow> py_lstrip s = s"
  by (cases s) (auto simp: py_lstrip_def)

lemma py_rstrip_id: "s = [] \<or> \<not> py_isspace (last s) \<Longrightarrow> py_rstrip s = s"
  by (cases s rule: rev_cases) (auto simp: py_rstrip_def)

lemma py_strip_idem: "py_strip (py_strip s) = py_strip s"
proof -
  let ?t = "py_strip s"
  have "py_lstrip ?t = ?t" using py_strip_hd [of s] by (intro py_lstrip_id) blast
  moreover have "py_rstrip ?t = ?t" using py_strip_last [of s] by (intro py_rstrip_id) blast
  ultimately show ?thesis by (simp add: py_strip_def [of ?t])
qed

lemma dropWhile_all_Nil: "\<forall>x\<in>set (dropWhile P s). P x \<Longrightarrow> dropWhile P s = []"
proof (rule ccontr)
  assume all: "\<forall>x\<in>set (dropWhile P s). P x" and ne: "dropWhile P s \<noteq> []"
  from ne have "\<not> P (hd (dropWhile P s))" by (rule hd_dropWhile)
  moreover from ne have "hd (dropWhile P s) \<in> set (dropWhile P s)" by (rule hd_in_set)
  ultimately show False using all by blast
qed

lemma py_strip_Nil_iff: "py_strip s = [] \<longleftrightarrow> list_all py_isspace s"
proof
  assume "py_strip s = []"
  then have "\<forall>x\<in>set (dropWhile py_isspace s). py_isspace x"
    by (simp add: py_strip_def py_rstrip_def py_lstrip_def dropWhile_eq_Nil_conv)
  then have "dropWhile py_isspace s = []" by (rule dropWhile_all_Nil)
  then show "list_all py_isspace s"
    by (simp add: dropWhile_eq_Nil_conv list_all_iff)
next
  assume "list_all py_isspace s"
  then have e: "dropWhile py_isspace s = []"
    by (simp add: dropWhile_eq_Nil_conv list_all_iff)
  show "py_strip s = []"
    unfolding py_strip_def py_rstrip_def py_lstrip_def e by simp
qed

lemma strip_hello: "py_strip (ascii ''  Hello PDF  '') = ascii ''Hello PDF''"
  by (simp add: ascii_def py_strip_def py_lstrip_def py_rstrip_def py_isspace_def)

section \<open>The paths of \<^verbatim>\<open>extract_pdf_text\<close> and \<^verbatim>\<open>main\<close>\<close>

lemma keys_neq [simp]:
  "ascii ''success'' \<noteq> ascii ''error''" "ascii ''success'' \<noteq> ascii ''text''"
  "ascii ''success'' \<noteq> ascii ''length''" "ascii ''error'' \<noteq> ascii ''text''"
  "ascii ''error'' \<noteq> ascii ''length''" "ascii ''text'' \<noteq> ascii ''length''"
  "ascii ''error'' \<noteq> ascii ''success''" "ascii ''text'' \<noteq> ascii ''success''"
  "ascii ''length'' \<noteq> ascii ''success''" "ascii ''text'' \<noteq> ascii ''error''"
  "ascii ''length'' \<noteq> ascii ''error''" "ascii ''length'' \<noteq> ascii ''text''"
  by (simp_all add: ascii_def)

lemma extract_pdf_text_Returned:
  "extract_text pdf_path LAPARAMS = Returned text \<Longrightarrow>
   fst (extract_pdf_text extract_text pdf_path w) =
     (if py_strip text = [] then
        [(ascii ''success'', PyBool False),
         (ascii ''error'', PyStr (ascii ''No text content found in PDF'')),
         (ascii ''text'', PyStr [])]
      else
        [(ascii ''success'', PyBool True),
         (ascii ''text'', PyStr (py_strip text)),
         (ascii ''length'', PyInt (int (length (py_strip text)))),
         (ascii ''error'', PyNone)])"
  by (auto simp: extract_pdf_text_def Let_def py_strip_def py_rstrip_def py_lstrip_def)

lemma extract_pdf_text_Raised:
  "extract_text pdf_path LAPARAMS = Raised e \<Longrightarrow>
   fst (extract_pdf_text extract_text pdf_path w) =
     [(ascii ''success'', PyBool False),
      (ascii ''error'', PyStr (ascii ''PDF extraction failed: '' @ e)),
      (ascii ''text'', PyStr [])]"
  by (simp add: extract_pdf_text_def Let_def)

lemma extract_pdf_text_cases:
  "fst (extract_pdf_text extract_text pdf_path w) =
     (case extract_text pdf_path LAPARAMS of
        Raised e \<Rightarrow>
          [(ascii ''success'', PyBool False),
           (ascii ''error'', PyStr (ascii ''PDF extraction failed: '' @ e)),
           (ascii ''text'', PyStr [])]
      | Returned text \<Rightarrow>
          if py_strip text = [] then
            [(ascii ''success'', PyBool False),
             (ascii ''error'', PyStr (ascii ''No text content found in PDF'')),
             (ascii ''text'', PyStr [])]
          else
            [(ascii ''success'', PyBool True),
             (ascii ''text'', PyStr (py_strip text)),
             (ascii ''length'', PyInt (int (length (py_strip text)))),
             (ascii ''error'', PyNone)])"
  by (simp add: extract_pdf_text_Returned extract_pdf_text_Raised split: outcome.split)

lemma extract_pdf_text_calls:
  "snd (extract_pdf_text extract_text pdf_path w) =
     w\<lparr>extract_calls := extract_calls w @ [(pdf_path, LAPARAMS)]\<rparr>"
  by (simp add: extract_pdf_text_def Let_def split: outcome.split)

lemma extract_pdf_text_shape:
  "is_extraction_result (fst (extract_pdf_text extract_text pdf_path w))"
  by (simp add: extract_pdf_text_cases is_extraction_result_def split: outcome.split)

lemma usage_result_shape: "is_extraction_result usage_result"
  by (simp add: is_extraction_result_def)

lemma success_iff:
  "map_of (fst (extract_pdf_text extract_text pdf_path w)) (ascii ''success'') =
     Some (PyBool True) \<longleftrightarrow>
   (\<exists>t. extract_text pdf_path LAPARAMS = Returned t \<and> \<not> list_all py_isspace t)"
  by (cases "extract_text pdf_path LAPARAMS")
     (simp_all add: extract_pdf_text_cases py_strip_Nil_iff)

lemma main_cases:
  "main extract_text argv w =
     (if length argv \<noteq> 2 then (SysExit 1, print (json_dumps usage_result) w)
      else (SysExit (if map_of (fst (extract_pdf_text extract_text (argv ! 1) w))
                          (ascii ''success'') = Some (PyBool True) then 0 else 1),
            print (json_dumps (fst (extract_pdf_text extract_text (argv ! 1) w)))
              (snd (extract_pdf_text extract_text (argv ! 1) w))))"
  by (simp add: main_def Let_def split_beta extract_pdf_text_cases split: outcome.split)

lemma main_stdout:
  "stdout (snd (main extract_text argv w)) =
     stdout w @ json_dumps (if length argv \<noteq> 2 then usage_result
                            else fst (extract_pdf_text extract_text (argv ! 1) w)) @ [0x0A]"
  by (simp add: main_cases print_def extract_pdf_text_calls)

section \<open>The output of \<^verbatim>\<open>json.dumps\<close> is a well-formed JSON object\<close>

text \<open>Strings: every escape that the encoder writes is one the grammar accepts.\<close>

lemma hexdigit_is_hex: "d < 16 \<Longrightarrow> is_hex (hexdigit d)"
  by (auto simp: is_hex_def hexdigit_def)

lemma hex_digits_is_hex: "list_all is_hex (hex_digits n)"
proof (induction n rule: hex_digits.induct)
  case (1 n)
  show ?case
  proof (cases "n < 16")
    case True
    then show ?thesis by (subst hex_digits.simps) (simp add: hexdigit_is_hex)
  next
    case False
    with 1 show ?thesis
      by (subst hex_digits.simps) (simp add: hexdigit_is_hex)
  qed
qed

lemma hex_digits_length: "n < 16 ^ k \<Longrightarrow> 0 < k \<Longrightarrow> length (hex_digits n) \<le> k"
proof (induction k arbitrary: n)
  case 0
  then show ?case by simp
next
  case (Suc k)
  show ?case
  proof (cases "n < 16")
    case True
    then show ?thesis by (subst hex_digits.simps) simp
  next
    case False
    with Suc.prems have k: "0 < k" by (cases k) simp_all
    from Suc.prems have "n div 16 < 16 ^ k"
      by (simp add: less_mult_imp_div_less mult.commute)
    with Suc.IH k have "length (hex_digits (n div 16)) \<le> k" by blast
    with False show ?thesis by (subst hex_digits.simps) simp
  qed
qed

lemma format_04x_length: "n < 65536 \<Longrightarrow> length (format_04x n) = 4"
proof -
  assume "n < 65536"
  then have "n < 16 ^ 4" by simp
  then have "length (hex_digits n) \<le> 4" by (rule hex_digits_length) simp
  then show ?thesis by (simp add: format_04x_def)
qed

lemma is_hex_zero: "is_hex 0x30"
  by (simp add: is_hex_def)

lemma format_04x_is_hex: "list_all is_hex (format_04x n)"
  using hex_digits_is_hex [of n] by (auto simp: format_04x_def is_hex_zero list_all_iff)

lemma length_four: "length xs = 4 \<Longrightarrow> \<exists>a b c d. xs = [a, b, c, d]"
  by (cases xs; cases "tl xs"; cases "tl (tl xs)"; cases "tl (tl (tl xs))") auto

lemma is_escape_u: "\<not> is_escape 0x75"
  by (simp add: is_escape_def)

lemma json_chars_u:
  assumes "length h = 4" and "list_all is_hex h"
  shows "json_chars (0x5C # 0x75 # h @ rest) = json_chars rest"
proof -
  from assms(1) obtain a b c d where h: "h = [a, b, c, d]"
    using length_four by blast
  with assms(2) show ?thesis by (simp add: is_escape_u)
qed

lemma json_chars_format:
  "n < 65536 \<Longrightarrow> json_chars (0x5C # 0x75 # format_04x n @ rest) = json_chars rest"
  by (rule json_chars_u) (simp_all add: format_04x_length format_04x_is_hex)

lemma surrogate_bound:
  fixes x :: nat
  assumes "b < 2 ^ 16"
  shows "b OR (x AND 0x3FF) < 65536"
proof -
  have "int x AND 0x3FF \<le> 0x3FF" by (rule AND_upper2) simp
  then have small: "int x AND 0x3FF < 2 ^ 16" by simp
  from assms have "int b < 2 ^ 16" by simp
  then have "int b OR (int x AND 0x3FF) < 2 ^ 16"
    using small by (intro OR_upper) simp_all
  then have "int (b OR (x AND 0x3FF)) < 2 ^ 16"
    by (simp add: of_nat_or_eq of_nat_and_eq)
  then show ?thesis by simp
qed

lemma json_chars_escape:
  "is_escape e \<Longrightarrow> json_chars (0x5C # e # rest) = json_chars rest"
  by simp

lemma json_chars_replace: "json_chars (replace c @ rest) = json_chars rest"
proof -
  consider (short) "c \<in> {0x5C, 0x22, 0x08, 0x0C, 0x0A, 0x0D, 0x09}"
    | (bmp) "c \<notin> {0x5C, 0x22, 0x08, 0x0C, 0x0A, 0x0D, 0x09}" "c < 0x10000"
    | (astral) "c \<notin> {0x5C, 0x22, 0x08, 0x0C, 0x0A, 0x0D, 0x09}" "\<not> c < 0x10000"
    by blast
  then show ?thesis
  proof cases
    case short
    then show ?thesis
      by (auto simp: replace_def is_escape_def)
  next
    case bmp
    then have "replace c = [0x5C, 0x75] @ format_04x c"
      by (simp add: replace_def)
    with bmp(2) show ?thesis
      by (simp add: json_chars_format del: json_chars.simps)
  next
    case astral
    define s1 where "s1 = (0xD800::nat) OR (drop_bit 10 (c - 0x10000) AND 0x3FF)"
    define s2 where "s2 = (0xDC00::nat) OR ((c - 0x10000) AND 0x3FF)"
    have b1: "s1 < 65536" unfolding s1_def by (rule surrogate_bound) simp
    have b2: "s2 < 65536" unfolding s2_def by (rule surrogate_bound) simp
    from astral have "replace c = [0x5C, 0x75] @ format_04x s1 @ [0x5C, 0x75] @ format_04x s2"
      by (simp add: replace_def Let_def s1_def s2_def)
    then have "json_chars (replace c @ rest) =
        json_chars (0x5C # 0x75 # format_04x s1 @ (0x5C # 0x75 # format_04x s2 @ rest))"
      by simp
    also have "\<dots> = json_chars (0x5C # 0x75 # format_04x s2 @ rest)"
      using b1 by (rule json_chars_format)
    also have "\<dots> = json_chars rest"
      using b2 by (rule json_chars_format)
    finally show ?thesis .
  qed
qed

lemma json_chars_plain:
  "\<not> escape_ascii c \<Longrightarrow> json_chars (c # rest) = json_chars rest"
  by (simp add: escape_ascii_def)

lemma json_chars_body:
  "json_chars (concat (map (\<lambda>c. if escape_ascii c then replace c else [c]) s) @ 0x22 # rest) =
     Some rest"
proof (induction s)
  case Nil
  show ?case by simp
next
  case (Cons c s)
  show ?case
  proof (cases "escape_ascii c")
    case True
    then show ?thesis
      using Cons.IH by (simp add: json_chars_replace del: json_chars.simps)
  next
    case False
    then show ?thesis
      using Cons.IH by (simp add: json_chars_plain del: json_chars.simps)
  qed
qed

lemma json_string_encode:
  "json_string (py_encode_basestring_ascii s @ rest) = Some rest"
  by (simp add: json_string_def py_encode_basestring_ascii_def json_chars_body
           del: json_chars.simps)

text \<open>Integers: decimal digits without a leading zero.\<close>

lemma dec_digits_is_digit: "list_all is_digit (dec_digits n)"
proof (induction n rule: dec_digits.induct)
  case (1 n)
  show ?case
  proof (cases "n < 10")
    case True
    then show ?thesis by (subst dec_digits.simps) (simp add: is_digit_def)
  next
    case False
    have "n mod 10 < 10" by simp
    then have "is_digit (0x30 + n mod 10)" unfolding is_digit_def by linarith
    with False 1 show ?thesis
      by (subst dec_digits.simps) simp
  qed
qed

lemma dec_digits_shape:
  "\<exists>d ds. dec_digits n = d # ds \<and>
     (if n = 0 then d = 0x30 \<and> ds = [] else 0x31 \<le> d \<and> d \<le> 0x39)"
proof (induction n rule: dec_digits.induct)
  case (1 n)
  show ?case
  proof (cases "n < 10")
    case True
    then show ?thesis by (subst dec_digits.simps) auto
  next
    case False
    then have "n div 10 \<noteq> 0" by simp
    with 1 False obtain d ds where "dec_digits (n div 10) = d # ds" "0x31 \<le> d" "d \<le> 0x39"
      by (auto split: if_splits)
    with False show ?thesis
      by (subst dec_digits.simps) auto
  qed
qed

lemma dropWhile_digits:
  assumes "list_all is_digit ds" and "delimited rest"
  shows "dropWhile is_digit (ds @ rest) = rest"
proof -
  from assms(1) have "dropWhile is_digit (ds @ rest) = dropWhile is_digit rest"
    by (intro dropWhile_append2) (simp add: list_all_iff)
  also from assms(2) have "\<dots> = rest"
    by (cases rest) (simp_all add: delimited_def)
  finally show ?thesis .
qed

lemma json_int_dec_digits:
  assumes "delimited rest"
  shows "json_int (dec_digits n @ rest) = Some rest"
proof -
  from dec_digits_shape [of n] obtain d ds where
    dd: "dec_digits n = d # ds" and
    sh: "if n = 0 then d = 0x30 \<and> ds = [] else 0x31 \<le> d \<and> d \<le> 0x39"
    by blast
  from dec_digits_is_digit [of n] dd have ds: "list_all is_digit ds" by simp
  show ?thesis
  proof (cases "n = 0")
    case True
    with sh dd show ?thesis by (simp add: json_int_def)
  next
    case False
    with sh have "0x31 \<le> d" "d \<le> 0x39" by simp_all
    then have "json_int (d # ds @ rest) = Some (dropWhile is_digit (ds @ rest))"
      by (simp add: json_int_def)
    with dd ds assms show ?thesis by (simp add: dropWhile_digits)
  qed
qed

lemma dec_digits_hd_digit:
  "\<exists>d ds. dec_digits n = d # ds \<and> is_digit d"
  using dec_digits_shape [of n] dec_digits_is_digit [of n] by auto

lemma json_number_int_repr:
  assumes "delimited rest"
  shows "json_number (int_repr i @ rest) = Some rest"
proof (cases "i < 0")
  case True
  then show ?thesis
    using json_int_dec_digits [OF assms] by (simp add: json_number_def int_repr_def)
next
  case False
  obtain d ds where dd: "dec_digits (nat i) = d # ds" and d: "is_digit d"
    using dec_digits_hd_digit by blast
  from d have "d \<noteq> 0x2D" by (auto simp: is_digit_def)
  with dd have "json_number (dec_digits (nat i) @ rest) = json_int (dec_digits (nat i) @ rest)"
    by (simp add: json_number_def)
  with False show ?thesis
    using json_int_dec_digits [OF assms] by (simp add: int_repr_def)
qed

lemma int_repr_hd: "\<exists>c cs. int_repr i = c # cs \<and> (c = 0x2D \<or> is_digit c)"
  using dec_digits_hd_digit [of "nat i"] by (auto simp: int_repr_def)

text \<open>Values, members and the whole object.\<close>

lemma json_value_encode:
  assumes "delimited rest"
  shows "json_value (json_encode v @ rest) = Some rest"
proof (cases v)
  case (PyBool b)
  then show ?thesis
    by (cases b) (simp_all add: json_value_def json_literal_def ascii_def)
next
  case (PyStr s)
  have "json_value (py_encode_basestring_ascii s @ rest) =
          json_string (py_encode_basestring_ascii s @ rest)"
    by (simp add: json_value_def py_encode_basestring_ascii_def)
  with PyStr show ?thesis by (simp add: json_string_encode)
next
  case (PyInt i)
  obtain c cs where r: "int_repr i = c # cs" and c: "c = 0x2D \<or> is_digit c"
    using int_repr_hd by blast
  from c have "c \<noteq> 0x22" "c \<noteq> 0x74" "c \<noteq> 0x66" "c \<noteq> 0x6E"
    by (auto simp: is_digit_def)
  with r have "json_value (int_repr i @ rest) = json_number (int_repr i @ rest)"
    by (simp add: json_value_def)
  with PyInt assms show ?thesis by (simp add: json_number_int_repr)
next
  case PyNone
  then show ?thesis
    by (simp add: json_value_def json_literal_def ascii_def)
qed

lemma skip_ws_space: "skip_ws (0x20 # s) = skip_ws s"
  by (simp add: skip_ws_def json_ws_def)

lemma skip_ws_id: "\<not> json_ws c \<Longrightarrow> skip_ws (c # s) = c # s"
  by (simp add: skip_ws_def)

lemma json_encode_hd: "\<exists>c cs. json_encode v = c # cs \<and> \<not> json_ws c"
proof (cases v)
  case (PyBool b)
  then show ?thesis by (cases b) (simp_all add: ascii_def json_ws_def)
next
  case (PyStr s)
  then show ?thesis by (simp add: py_encode_basestring_ascii_def json_ws_def)
next
  case (PyInt i)
  then show ?thesis using int_repr_hd [of i] by (auto simp: json_ws_def is_digit_def)
next
  case PyNone
  then show ?thesis by (simp add: ascii_def json_ws_def)
qed

lemma json_member_item:
  assumes "delimited rest"
  shows "json_member (json_item kv @ rest) = Some rest"
proof -
  obtain c cs where v: "json_encode (snd kv) = c # cs" and c: "\<not> json_ws c"
    using json_encode_hd by blast
  have "json_item kv @ rest =
          py_encode_basestring_ascii (fst kv) @ (0x3A # 0x20 # json_encode (snd kv) @ rest)"
    by (simp add: json_item_def ascii_def)
  then have "json_member (json_item kv @ rest) =
          json_value (skip_ws (0x20 # json_encode (snd kv) @ rest))"
    by (simp add: json_member_def json_string_encode skip_ws_id json_ws_def)
  also have "\<dots> = json_value (json_encode (snd kv) @ rest)"
    using v c by (simp add: skip_ws_space skip_ws_id)
  also have "\<dots> = Some rest" using assms by (rule json_value_encode)
  finally show ?thesis .
qed

lemma delimited_brace: "delimited (0x7D # rest)"
  by (simp add: delimited_def is_digit_def)

lemma delimited_comma: "delimited (0x2C # rest)"
  by (simp add: delimited_def is_digit_def)

lemma json_item_hd: "\<exists>cs. json_item kv = 0x22 # cs"
  by (simp add: json_item_def py_encode_basestring_ascii_def)

lemma join_items_hd:
  "d \<noteq> [] \<Longrightarrow> \<exists>cs. join sep (map json_item d) = 0x22 # cs"
proof -
  assume "d \<noteq> []"
  then obtain x xs where d: "d = x # xs" by (cases d) simp_all
  obtain cs where "json_item x = 0x22 # cs" using json_item_hd by blast
  with d show ?thesis by (cases xs) simp_all
qed

lemma json_members_join:
  "d \<noteq> [] \<Longrightarrow> length d \<le> n \<Longrightarrow>
   json_members n (join (ascii '', '') (map json_item d) @ 0x7D # rest) = Some rest"
proof (induction d arbitrary: n)
  case Nil
  then show ?case by simp
next
  case (Cons x xs)
  from Cons.prems obtain m where n: "n = Suc m" and m: "length xs \<le> m"
    by (cases n) simp_all
  show ?case
  proof (cases xs)
    case Nil
    have "json_member (json_item x @ 0x7D # rest) = Some (0x7D # rest)"
      by (rule json_member_item) (rule delimited_brace)
    with Nil n show ?thesis
      by (simp add: skip_ws_id json_ws_def)
  next
    case (Cons y ys)
    let ?tail = "join (ascii '', '') (map json_item xs) @ 0x7D # rest"
    obtain cs where hd: "join (ascii '', '') (map json_item xs) = 0x22 # cs"
      using join_items_hd [of xs] Cons by blast
    have "json_item x @ ascii '', '' @ ?tail = json_item x @ (0x2C # 0x20 # ?tail)"
      by (simp add: ascii_def)
    moreover have "json_member (json_item x @ (0x2C # 0x20 # ?tail)) = Some (0x2C # 0x20 # ?tail)"
      by (rule json_member_item) (rule delimited_comma)
    moreover have "skip_ws (0x20 # ?tail) = ?tail"
      using hd by (simp add: skip_ws_space skip_ws_id json_ws_def)
    moreover have "json_members m ?tail = Some rest"
      using Cons m by (intro Cons.IH) simp_all
    ultimately show ?thesis
      using n Cons by (simp add: skip_ws_id json_ws_def)
  qed
qed

lemma json_item_nonempty: "json_item kv \<noteq> []"
  using json_item_hd [of kv] by auto

lemma length_join_items: "length d \<le> length (join sep (map json_item d))"
proof (induction d)
  case Nil
  show ?case by simp
next
  case (Cons x xs)
  have "1 \<le> length (json_item x)"
    using json_item_nonempty [of x] by (cases "json_item x") simp_all
  with Cons show ?case by (cases xs) simp_all
qed

lemma json_dumps_object: "json_object (json_dumps d) = Some []"
proof (cases "d = []")
  case True
  then show ?thesis
    by (simp add: json_dumps_def json_object_def ascii_def skip_ws_id json_ws_def)
next
  case False
  let ?body = "join (ascii '', '') (map json_item d)"
  obtain cs where hd: "?body = 0x22 # cs"
    using join_items_hd [OF False] by blast
  have len: "length d \<le> length (?body @ [0x7D])"
    using length_join_items [of d "ascii '', ''"] by simp
  have "json_members (length (?body @ [0x7D])) (?body @ 0x7D # []) = Some []"
    using False len by (rule json_members_join)
  moreover have "skip_ws (?body @ [0x7D]) = ?body @ [0x7D]"
    using hd by (simp add: skip_ws_id json_ws_def)
  moreover have "json_object (0x7B # ?body @ [0x7D]) =
      json_members (length (?body @ [0x7D])) (skip_ws (?body @ [0x7D]))"
    using hd by (simp add: json_object_def skip_ws_id json_ws_def)
  ultimately show ?thesis
    using False by (simp add: json_dumps_def)
qed

lemma json_dumps_hd: "\<exists>cs. json_dumps d = 0x7B # cs"
  by (simp add: json_dumps_def ascii_def)

lemma json_dumps_well_formed: "is_json_object (json_dumps d)"
proof -
  obtain cs where "json_dumps d = 0x7B # cs" using json_dumps_hd by blast
  then have "skip_ws (json_dumps d) = json_dumps d"
    by (simp add: skip_ws_id json_ws_def)
  then show ?thesis
    by (simp add: is_json_object_def json_dumps_object skip_ws_def)
qed

text \<open>The output is printable ASCII, so it contains no line break.\<close>

lemma is_hex_printable: "is_hex c \<Longrightarrow> is_printable c"
  by (auto simp: is_hex_def is_printable_def)

lemma is_digit_printable: "is_digit c \<Longrightarrow> is_printable c"
  by (auto simp: is_digit_def is_printable_def)

lemma list_all_mono: "list_all P xs \<Longrightarrow> (\<And>x. P x \<Longrightarrow> Q x) \<Longrightarrow> list_all Q xs"
  by (auto simp: list_all_iff)

lemma format_04x_printable: "list_all is_printable (format_04x n)"
  using format_04x_is_hex [of n] by (rule list_all_mono) (rule is_hex_printable)

lemma replace_printable: "list_all is_printable (replace c)"
  by (simp add: replace_def Let_def format_04x_printable) (simp add: is_printable_def)

lemma encode_char_printable:
  "list_all is_printable (if escape_ascii c then replace c else [c])"
  by (auto simp: replace_printable) (simp add: escape_ascii_def is_printable_def)

lemma encode_printable: "list_all is_printable (py_encode_basestring_ascii s)"
proof -
  have "list_all is_printable (concat (map (\<lambda>c. if escape_ascii c then replace c else [c]) s))"
    by (induction s) (simp_all add: encode_char_printable del: if_split)
  then show ?thesis
    by (simp add: py_encode_basestring_ascii_def is_printable_def)
qed

lemma int_repr_printable: "list_all is_printable (int_repr i)"
proof -
  have "list_all is_printable (dec_digits n)" for n
    using dec_digits_is_digit [of n] by (rule list_all_mono) (rule is_digit_printable)
  then show ?thesis by (simp add: int_repr_def is_printable_def)
qed

lemma json_encode_printable: "list_all is_printable (json_encode v)"
proof (cases v)
  case (PyBool b)
  then show ?thesis by (cases b) (simp_all add: ascii_def is_printable_def)
next
  case (PyStr s)
  then show ?thesis by (simp add: encode_printable)
next
  case (PyInt i)
  then show ?thesis by (simp add: int_repr_printable)
next
  case PyNone
  then show ?thesis by (simp add: ascii_def is_printable_def)
qed

lemma json_item_printable: "list_all is_printable (json_item kv)"
  by (simp add: json_item_def encode_printable json_encode_printable)
     (simp add: ascii_def is_printable_def)

lemma join_printable:
  "list_all is_printable sep \<Longrightarrow> list_all (list_all is_printable) xs \<Longrightarrow>
   list_all is_printable (join sep xs)"
  by (induction sep xs rule: join.induct) simp_all

lemma json_dumps_printable: "list_all is_printable (json_dumps d)"
proof -
  have sep: "list_all is_printable (ascii '', '')"
    by (simp add: ascii_def is_printable_def)
  have "list_all (list_all is_printable) (map json_item d)"
    by (induction d) (simp_all add: json_item_printable)
  with sep have "list_all is_printable (join (ascii '', '') (map json_item d))"
    by (rule join_printable)
  then show ?thesis
    by (simp add: json_dumps_def) (simp add: ascii_def is_printable_def)
qed

lemma json_dumps_one_line: "0x0A \<notin> set (json_dumps d)"
  using json_dumps_printable [of d] by (auto simp: list_all_iff is_printable_def)

section \<open>Examples\<close>

text \<open>
  The recogniser rejects texts that are not JSON: a number with a leading zero, a
  trailing comma, a misspelt literal, an unterminated string, an unknown escape,
  trailing characters, a raw line break inside a string.
\<close>

lemmas json_eval =
  is_json_object_def json_object_def json_member_def json_value_def json_string_def
  json_number_def json_int_def json_literal_def skip_ws_def json_ws_def is_digit_def
  is_hex_def is_escape_def ascii_def

lemma example_rejected:
  "\<not> is_json_object (ascii ''{\"a\": 01}'')"
  "\<not> is_json_object (ascii ''{\"a\": 1,}'')"
  "\<not> is_json_object (ascii ''{\"a\": tru}'')"
  "\<not> is_json_object (ascii ''{\"a\": \"x}'')"
  "\<not> is_json_object (ascii ''{\"a\": \"'' @ [0x5C] @ ascii ''x\"}'')"
  "\<not> is_json_object (ascii ''{\"a\": 1} x'')"
  "\<not> is_json_object [0x7B, 0x22, 0x61, 0x22, 0x3A, 0x22, 0x0A, 0x22, 0x7D]"
  by (simp_all add: json_eval)

lemma example_accepted:
  "is_json_object (ascii '' {\"a\" : -10 , \"b\":\"x\", \"c\": null} '')"
  by (simp add: json_eval)

text \<open>The lines that \<^verbatim>\<open>main\<close> prints for a PDF with text and for a missing file.\<close>

lemma dec_digits_eval:
  "n < 10 \<Longrightarrow> dec_digits n = [0x30 + n]"
  "\<not> n < 10 \<Longrightarrow> dec_digits n = dec_digits (n div 10) @ [0x30 + n mod 10]"
  by (subst dec_digits.simps, simp)+

lemma hex_digits_eval:
  "n < 16 \<Longrightarrow> hex_digits n = [hexdigit n]"
  "\<not> n < 16 \<Longrightarrow> hex_digits n = hex_digits (n div 16) @ [hexdigit (n mod 16)]"
  by (subst hex_digits.simps, simp)+

lemma replicate_eval:
  "replicate 1 x = [x]" "replicate 2 x = [x, x]" "replicate 3 x = [x, x, x]"
  by (simp_all add: numeral_2_eq_2 numeral_3_eq_3)

lemmas dumps_eval = replicate_eval
  json_dumps_def json_item_def py_encode_basestring_ascii_def escape_ascii_def replace_def
  format_04x_def hexdigit_def int_repr_def dec_digits_eval hex_digits_eval ascii_def Let_def

lemma example_success_line:
  "stdout (snd (main some_text argv1 w0)) =
     ascii ''{\"success\": true, \"text\": \"Hello PDF\", \"length\": 9, \"error\": null}'' @ [0x0A]"
  by (simp add: main_stdout argv1_def w0_def extract_pdf_text_cases some_text_def strip_hello)
     (simp add: dumps_eval)

lemma example_failure_line:
  "stdout (snd (main no_file argv1 w0)) =
     ascii ''{\"success\": false, \"error\": \"PDF extraction failed: No such file\", \"text\": \"\"}'' @ [0x0A]"
  by (simp add: main_stdout argv1_def w0_def extract_pdf_text_cases no_file_def)
     (simp add: dumps_eval)

lemma example_escapes:
  "json_encode (PyStr [0x1F600, 0x0A, 0xE9, 0x22]) =
     [0x22] @ [0x5C] @ ascii ''ud83d'' @ [0x5C] @ ascii ''ude00'' @ [0x5C] @ ascii ''n'' @
     [0x5C] @ ascii ''u00e9'' @ [0x5C, 0x22] @ [0x22]"
  by (simp add: dumps_eval)

lemma example_int: "json_encode (PyInt (-1204)) = ascii ''-1204''"
  by (simp add: dumps_eval)

section \<open>The claims\<close>

text \<open>
  C1. When the extractor returns text that is neither empty nor only white space,
  \<^verbatim>\<open>extract_pdf_text\<close> returns exactly the dictionary with \<^verbatim>\<open>success\<close> true, \<^verbatim>\<open>text\<close>
  the extractor's output without its leading and trailing white space, \<^verbatim>\<open>length\<close> the
  number of characters of that text, and \<^verbatim>\<open>error\<close> \<^verbatim>\<open>None\<close>.
\<close>

theorem extract_pdf_text_success:
  assumes "extract_text pdf_path LAPARAMS = Returned text"
    and "text \<noteq> []" and "\<not> list_all py_isspace text"
  shows "fst (extract_pdf_text extract_text pdf_path w) =
           [(ascii ''success'', PyBool True),
            (ascii ''text'', PyStr (py_strip text)),
            (ascii ''length'', PyInt (int (length (py_strip text)))),
            (ascii ''error'', PyNone)]"
  using assms by (simp add: extract_pdf_text_Returned py_strip_Nil_iff)

theorem extract_pdf_text_success_witness:
  "some_text (ascii ''a.pdf'') LAPARAMS = Returned (ascii ''  Hello PDF  '') \<and>
   ascii ''  Hello PDF  '' \<noteq> [] \<and>
   \<not> list_all py_isspace (ascii ''  Hello PDF  '') \<and>
   fst (extract_pdf_text some_text (ascii ''a.pdf'') w0) =
     [(ascii ''success'', PyBool True),
      (ascii ''text'', PyStr (ascii ''Hello PDF'')),
      (ascii ''length'', PyInt 9),
      (ascii ''error'', PyNone)]"
proof -
  have h1: "some_text (ascii ''a.pdf'') LAPARAMS = Returned (ascii ''  Hello PDF  '')"
    by (simp add: some_text_def)
  have h2: "ascii ''  Hello PDF  '' \<noteq> []"
    by (simp add: ascii_def)
  have h3: "\<not> list_all py_isspace (ascii ''  Hello PDF  '')"
    by (simp add: ascii_def py_isspace_def)
  have len: "int (length (ascii ''Hello PDF'')) = 9"
    by (simp add: ascii_def)
  from extract_pdf_text_success
         [of some_text "ascii ''a.pdf''" "ascii ''  Hello PDF  ''" w0, OF h1 h2 h3] h1 h2 h3 len
  show ?thesis by (simp only: strip_hello simp_thms)
qed

text \<open>
  C2. When the call of the extractor raises an exception, \<^verbatim>\<open>extract_pdf_text\<close> returns
  the failure dictionary whose \<^verbatim>\<open>error\<close> is \<^verbatim>\<open>PDF extraction failed: \<close> followed by the
  message of the exception, with empty \<^verbatim>\<open>text\<close>; and whatever the extractor does,
  the function returns a well-formed result record.
\<close>

theorem extract_pdf_text_exception:
  "(extract_text pdf_path LAPARAMS = Raised e \<longrightarrow>
      fst (extract_pdf_text extract_text pdf_path w) =
        [(ascii ''success'', PyBool False),
         (ascii ''error'', PyStr (ascii ''PDF extraction failed: '' @ e)),
         (ascii ''text'', PyStr [])]) \<and>
   is_extraction_result (fst (extract_pdf_text extract_text pdf_path w))"
  by (simp add: extract_pdf_text_Raised extract_pdf_text_shape)

theorem extract_pdf_text_exception_witness:
  "no_file (ascii ''a.pdf'') LAPARAMS = Raised (ascii ''No such file'') \<and>
   fst (extract_pdf_text no_file (ascii ''a.pdf'') w0) =
     [(ascii ''success'', PyBool False),
      (ascii ''error'', PyStr (ascii ''PDF extraction failed: No such file'')),
      (ascii ''text'', PyStr [])] \<and>
   is_extraction_result (fst (extract_pdf_text no_file (ascii ''a.pdf'') w0))"
proof -
  have h: "no_file (ascii ''a.pdf'') LAPARAMS = Raised (ascii ''No such file'')"
    by (simp add: no_file_def)
  have cat: "ascii ''PDF extraction failed: '' @ ascii ''No such file'' =
             ascii ''PDF extraction failed: No such file''"
    by (simp add: ascii_def)
  from extract_pdf_text_exception [of no_file "ascii ''a.pdf''" "ascii ''No such file''" w0] h cat
  show ?thesis by (simp add: is_extraction_result_def)
qed

text \<open>
  C3. When the extractor returns no text or only white space, \<^verbatim>\<open>extract_pdf_text\<close>
  returns the failure dictionary with the fixed message
  \<^verbatim>\<open>No text content found in PDF\<close> and empty \<^verbatim>\<open>text\<close>, not a success record.
\<close>

theorem extract_pdf_text_no_text:
  assumes "extract_text pdf_path LAPARAMS = Returned text"
    and "text = [] \<or> list_all py_isspace text"
  shows "fst (extract_pdf_text extract_text pdf_path w) =
           [(ascii ''success'', PyBool False),
            (ascii ''error'', PyStr (ascii ''No text content found in PDF'')),
            (ascii ''text'', PyStr [])]"
proof -
  from assms(2) have "py_strip text = []"
    by (auto simp: py_strip_Nil_iff)
  with assms(1) show ?thesis by (simp add: extract_pdf_text_Returned)
qed

theorem extract_pdf_text_no_text_witness:
  "blank_text (ascii ''a.pdf'') LAPARAMS = Returned (ascii ''   '') \<and>
   list_all py_isspace (ascii ''   '') \<and>
   fst (extract_pdf_text blank_text (ascii ''a.pdf'') w0) =
     [(ascii ''success'', PyBool False),
      (ascii ''error'', PyStr (ascii ''No text content found in PDF'')),
      (ascii ''text'', PyStr [])]"
proof -
  have h1: "blank_text (ascii ''a.pdf'') LAPARAMS = Returned (ascii ''   '')"
    by (simp add: blank_text_def)
  have h2: "list_all py_isspace (ascii ''   '')"
    by (simp add: ascii_def py_isspace_def)
  then have h2': "ascii ''   '' = [] \<or> list_all py_isspace (ascii ''   '')" ..
  from extract_pdf_text_no_text [of blank_text "ascii ''a.pdf''" "ascii ''   ''" w0, OF h1 h2'] h1 h2
  show ?thesis by (simp only: simp_thms)
qed

text \<open>
  C4. When \<^verbatim>\<open>sys.argv\<close> does not hold exactly one argument after the script name,
  \<^verbatim>\<open>main\<close> prints the usage-error record, whose \<^verbatim>\<open>error\<close> ends in
  \<^verbatim>\<open><pdf_file_path>\<close>, and exits with status 1; the extractor is not called.
\<close>

theorem main_usage_error:
  assumes "length argv \<noteq> 2"
  shows "main extract_text argv w =
           (SysExit 1, w\<lparr>stdout := stdout w @ json_dumps usage_result @ [0x0A]\<rparr>) \<and>
         extract_calls (snd (main extract_text argv w)) = extract_calls w"
  using assms by (simp add: main_def print_def)

theorem main_usage_error_witness:
  "length [ascii ''extract_pdf_text.py''] \<noteq> 2 \<and>
   main some_text [ascii ''extract_pdf_text.py''] w0 =
     (SysExit 1, w0\<lparr>stdout := stdout w0 @ json_dumps usage_result @ [0x0A]\<rparr>) \<and>
   extract_calls (snd (main some_text [ascii ''extract_pdf_text.py''] w0)) = extract_calls w0"
proof -
  have h: "length [ascii ''extract_pdf_text.py''] \<noteq> 2" by simp
  from main_usage_error [of "[ascii ''extract_pdf_text.py'']" some_text w0, OF h] h
  show ?thesis by simp
qed

text \<open>
  C5. The exit status of \<^verbatim>\<open>main\<close> is 0 exactly when there is one path argument and the
  extractor returns text that is not blank, and 1 otherwise (wrong argument count, an
  exception of the extractor, no text); it is 0 if and only if the record written to
  standard output has \<^verbatim>\<open>success\<close> true.
\<close>

theorem main_exit_status:
  "fst (main extract_text argv w) =
     SysExit (if length argv = 2 \<and>
                 (\<exists>t. extract_text (argv ! 1) LAPARAMS = Returned t \<and> \<not> list_all py_isspace t)
              then 0 else 1) \<and>
   (\<exists>result. stdout (snd (main extract_text argv w)) = stdout w @ json_dumps result @ [0x0A] \<and>
      fst (main extract_text argv w) =
        SysExit (if map_of result (ascii ''success'') = Some (PyBool True) then 0 else 1))"
proof
  show "fst (main extract_text argv w) =
     SysExit (if length argv = 2 \<and>
                 (\<exists>t. extract_text (argv ! 1) LAPARAMS = Returned t \<and> \<not> list_all py_isspace t)
              then 0 else 1)"
    by (simp add: main_cases success_iff)
next
  let ?r = "if length argv \<noteq> 2 then usage_result
            else fst (extract_pdf_text extract_text (argv ! 1) w)"
  have "stdout (snd (main extract_text argv w)) = stdout w @ json_dumps ?r @ [0x0A]"
    by (rule main_stdout)
  moreover have "fst (main extract_text argv w) =
      SysExit (if map_of ?r (ascii ''success'') = Some (PyBool True) then 0 else 1)"
    by (simp add: main_cases)
  ultimately show "\<exists>result. stdout (snd (main extract_text argv w)) =
        stdout w @ json_dumps result @ [0x0A] \<and>
      fst (main extract_text argv w) =
        SysExit (if map_of result (ascii ''success'') = Some (PyBool True) then 0 else 1)"
    by blast
qed

theorem main_exit_status_witness:
  "fst (main some_text argv1 w0) = SysExit 0 \<and> fst (main blank_text argv1 w0) = SysExit 1 \<and>
   fst (main no_file argv1 w0) = SysExit 1 \<and> fst (main some_text [] w0) = SysExit 1"
proof -
  have a: "some_text (argv1 ! 1) LAPARAMS = Returned (ascii ''  Hello PDF  '')"
    by (simp add: some_text_def)
  have b: "\<not> list_all py_isspace (ascii ''  Hello PDF  '')"
    by (simp add: ascii_def py_isspace_def)
  have c: "\<And>t. blank_text (argv1 ! 1) LAPARAMS = Returned t \<Longrightarrow> list_all py_isspace t"
    by (auto simp: blank_text_def ascii_def py_isspace_def)
  have d: "\<And>t. no_file (argv1 ! 1) LAPARAMS \<noteq> Returned t"
    by (simp add: no_file_def)
  have l: "length argv1 = 2" by (simp add: argv1_def)
  from a b have e: "\<exists>t. some_text (argv1 ! 1) LAPARAMS = Returned t \<and> \<not> list_all py_isspace t"
    by blast
  from c have f: "\<not> (\<exists>t. blank_text (argv1 ! 1) LAPARAMS = Returned t \<and> \<not> list_all py_isspace t)"
    by blast
  from main_exit_status [of some_text argv1 w0] main_exit_status [of blank_text argv1 w0]
       main_exit_status [of no_file argv1 w0] main_exit_status [of some_text "[]" w0]
       l e f d
  show ?thesis by simp
qed

text \<open>
  C6. Whatever the arguments and whatever the extractor does, \<^verbatim>\<open>main\<close> ends by
  \<^verbatim>\<open>sys.exit\<close> after writing exactly one line to standard output: the serialisation
  by \<^verbatim>\<open>json.dumps\<close> of a record that has the shape of an ExtractionResult, which is
  a well-formed JSON object and contains no line break, followed by the newline.
\<close>

theorem main_one_json_line:
  "\<exists>result n.
     fst (main extract_text argv w) = SysExit n \<and>
     stdout (snd (main extract_text argv w)) = stdout w @ json_dumps result @ [0x0A] \<and>
     is_extraction_result result \<and>
     is_json_object (json_dumps result) \<and>
     0x0A \<notin> set (json_dumps result)"
proof -
  let ?r = "if length argv \<noteq> 2 then usage_result
            else fst (extract_pdf_text extract_text (argv ! 1) w)"
  have "is_extraction_result ?r"
    by (simp add: usage_result_shape extract_pdf_text_shape)
  moreover have "stdout (snd (main extract_text argv w)) = stdout w @ json_dumps ?r @ [0x0A]"
    by (rule main_stdout)
  moreover have "\<exists>n. fst (main extract_text argv w) = SysExit n"
    by (simp add: main_cases)
  ultimately show ?thesis
    using json_dumps_well_formed [of ?r] json_dumps_one_line [of ?r] by blast
qed

text \<open>
  C7. Every result record of the program has the shape of an ExtractionResult: the
  record returned by \<^verbatim>\<open>extract_pdf_text\<close>, the usage-error record, and so the record
  that \<^verbatim>\<open>main\<close> prints.
\<close>

theorem result_shape:
  "is_extraction_result (fst (extract_pdf_text extract_text pdf_path w)) \<and>
   is_extraction_result usage_result \<and>
   (\<exists>result. stdout (snd (main extract_text argv w)) = stdout w @ json_dumps result @ [0x0A] \<and>
      is_extraction_result result)"
proof -
  have "is_extraction_result (if length argv \<noteq> 2 then usage_result
          else fst (extract_pdf_text extract_text (argv ! 1) w))"
    by (simp add: usage_result_shape extract_pdf_text_shape)
  with main_stdout [of extract_text argv w] show ?thesis
    using extract_pdf_text_shape usage_result_shape by blast
qed

text \<open>
  C8. The result of \<^verbatim>\<open>extract_pdf_text\<close> is determined by what the extractor returns for
  the file: two runs in which the extractor gives the same outcome return the same
  record, with the same \<^verbatim>\<open>text\<close> and \<^verbatim>\<open>length\<close>.
\<close>

theorem extract_pdf_text_deterministic:
  assumes "extract_text pdf_path LAPARAMS = extract_text' pdf_path LAPARAMS"
  shows "fst (extract_pdf_text extract_text pdf_path w) =
           fst (extract_pdf_text extract_text' pdf_path w') \<and>
         map_of (fst (extract_pdf_text extract_text pdf_path w)) (ascii ''text'') =
           map_of (fst (extract_pdf_text extract_text' pdf_path w')) (ascii ''text'') \<and>
         map_of (fst (extract_pdf_text extract_text pdf_path w)) (ascii ''length'') =
           map_of (fst (extract_pdf_text extract_text' pdf_path w')) (ascii ''length'')"
  using assms by (simp add: extract_pdf_text_cases)

theorem extract_pdf_text_deterministic_witness:
  "some_text (ascii ''a.pdf'') LAPARAMS =
     (\<lambda>p l. if p = ascii ''a.pdf'' then Returned (ascii ''  Hello PDF  '') else Raised [])
       (ascii ''a.pdf'') LAPARAMS \<and>
   map_of (fst (extract_pdf_text some_text (ascii ''a.pdf'') w0)) (ascii ''text'') =
     map_of (fst (extract_pdf_text
                    (\<lambda>p l. if p = ascii ''a.pdf'' then Returned (ascii ''  Hello PDF  '')
                            else Raised [])
                    (ascii ''a.pdf'') (w0\<lparr>stdout := ascii ''x''\<rparr>))) (ascii ''text'') \<and>
   map_of (fst (extract_pdf_text some_text (ascii ''a.pdf'') w0)) (ascii ''length'') =
     map_of (fst (extract_pdf_text
                    (\<lambda>p l. if p = ascii ''a.pdf'' then Returned (ascii ''  Hello PDF  '')
                            else Raised [])
                    (ascii ''a.pdf'') (w0\<lparr>stdout := ascii ''x''\<rparr>))) (ascii ''length'')"
proof -
  let ?other = "\<lambda>(p::pystr) (l::LAParams).
                  if p = ascii ''a.pdf'' then Returned (ascii ''  Hello PDF  '') else Raised []"
  have h: "some_text (ascii ''a.pdf'') LAPARAMS = ?other (ascii ''a.pdf'') LAPARAMS"
    by (simp add: some_text_def)
  from extract_pdf_text_deterministic
         [of some_text "ascii ''a.pdf''" ?other w0 "w0\<lparr>stdout := ascii ''x''\<rparr>", OF h] h
  show ?thesis by simp
qed

lemma strip_ok: "py_strip (ascii ''ok'') = ascii ''ok''"
  by (simp add: ascii_def py_strip_def py_lstrip_def py_rstrip_def py_isspace_def)

text \<open>
  C9. The layout parameters passed to the extractor are the same constants in every
  call, whatever the path and the arguments: line margin 0.5, word margin 0.1,
  character margin 2.0, boxes flow 0.5, and \<^verbatim>\<open>all_texts\<close> false. The record that
  \<^verbatim>\<open>extract_pdf_text\<close> returns, and the line that \<^verbatim>\<open>main\<close> prints, are what the
  extractor gives when applied to the path and to exactly these parameters; the one
  call that is made is made with them, and \<^verbatim>\<open>main\<close> makes it only when it has one path
  argument.
\<close>

theorem laparams_fixed:
  "fst (extract_pdf_text extract_text pdf_path w) =
     (case extract_text pdf_path
             \<lparr>line_margin = 0.5, word_margin = 0.1, char_margin = 2.0,
              boxes_flow = 0.5, all_texts = False\<rparr> of
        Raised e \<Rightarrow>
          [(ascii ''success'', PyBool False),
           (ascii ''error'', PyStr (ascii ''PDF extraction failed: '' @ e)),
           (ascii ''text'', PyStr [])]
      | Returned text \<Rightarrow>
          if py_strip text = [] then
            [(ascii ''success'', PyBool False),
             (ascii ''error'', PyStr (ascii ''No text content found in PDF'')),
             (ascii ''text'', PyStr [])]
          else
            [(ascii ''success'', PyBool True),
             (ascii ''text'', PyStr (py_strip text)),
             (ascii ''length'', PyInt (int (length (py_strip text)))),
             (ascii ''error'', PyNone)]) \<and>
   extract_calls (snd (extract_pdf_text extract_text pdf_path w)) =
     extract_calls w @
       [(pdf_path, \<lparr>line_margin = 0.5, word_margin = 0.1, char_margin = 2.0,
                    boxes_flow = 0.5, all_texts = False\<rparr>)] \<and>
   stdout (snd (main extract_text argv w)) =
     stdout w @
     json_dumps
       (if length argv \<noteq> 2 then usage_result
        else case extract_text (argv ! 1)
                    \<lparr>line_margin = 0.5, word_margin = 0.1, char_margin = 2.0,
                     boxes_flow = 0.5, all_texts = False\<rparr> of
               Raised e \<Rightarrow>
                 [(ascii ''success'', PyBool False),
                  (ascii ''error'', PyStr (ascii ''PDF extraction failed: '' @ e)),
                  (ascii ''text'', PyStr [])]
             | Returned text \<Rightarrow>
                 if py_strip text = [] then
                   [(ascii ''success'', PyBool False),
                    (ascii ''error'', PyStr (ascii ''No text content found in PDF'')),
                    (ascii ''text'', PyStr [])]
                 else
                   [(ascii ''success'', PyBool True),
                    (ascii ''text'', PyStr (py_strip text)),
                    (ascii ''length'', PyInt (int (length (py_strip text)))),
                    (ascii ''error'', PyNone)]) @ [0x0A] \<and>
   extract_calls (snd (main extract_text argv w)) =
     extract_calls w @
       (if length argv = 2
        then [(argv ! 1, \<lparr>line_margin = 0.5, word_margin = 0.1, char_margin = 2.0,
                           boxes_flow = 0.5, all_texts = False\<rparr>)]
        else [])"
proof (intro conjI)
  show "fst (extract_pdf_text extract_text pdf_path w) =
     (case extract_text pdf_path LAPARAMS of
        Raised e \<Rightarrow>
          [(ascii ''success'', PyBool False),
           (ascii ''error'', PyStr (ascii ''PDF extraction failed: '' @ e)),
           (ascii ''text'', PyStr [])]
      | Returned text \<Rightarrow>
          if py_strip text = [] then
            [(ascii ''success'', PyBool False),
             (ascii ''error'', PyStr (ascii ''No text content found in PDF'')),
             (ascii ''text'', PyStr [])]
          else
            [(ascii ''success'', PyBool True),
             (ascii ''text'', PyStr (py_strip text)),
             (ascii ''length'', PyInt (int (length (py_strip text)))),
             (ascii ''error'', PyNone)])"
    by (rule extract_pdf_text_cases)
next
  show "extract_calls (snd (extract_pdf_text extract_text pdf_path w)) =
          extract_calls w @ [(pdf_path, LAPARAMS)]"
    by (simp add: extract_pdf_text_calls)
next
  show "stdout (snd (main extract_text argv w)) =
     stdout w @
     json_dumps
       (if length argv \<noteq> 2 then usage_result
        else case extract_text (argv ! 1) LAPARAMS of
               Raised e \<Rightarrow>
                 [(ascii ''success'', PyBool False),
                  (ascii ''error'', PyStr (ascii ''PDF extraction failed: '' @ e)),
                  (ascii ''text'', PyStr [])]
             | Returned text \<Rightarrow>
                 if py_strip text = [] then
                   [(ascii ''success'', PyBool False),
                    (ascii ''error'', PyStr (ascii ''No text content found in PDF'')),
                    (ascii ''text'', PyStr [])]
                 else
                   [(ascii ''success'', PyBool True),
                    (ascii ''text'', PyStr (py_strip text)),
                    (ascii ''length'', PyInt (int (length (py_strip text)))),
                    (ascii ''error'', PyNone)]) @ [0x0A]"
    by (simp only: main_stdout [of extract_text argv w]
                   extract_pdf_text_cases [of extract_text "argv ! 1" w])
next
  show "extract_calls (snd (main extract_text argv w)) =
     extract_calls w @ (if length argv = 2 then [(argv ! 1, LAPARAMS)] else [])"
    by (simp add: main_cases print_def extract_pdf_text_calls)
qed

theorem laparams_fixed_witness:
  "strict_params (ascii ''a.pdf'')
     \<lparr>line_margin = 0.5, word_margin = 0.1, char_margin = 2.0,
      boxes_flow = 0.5, all_texts = True\<rparr> = Raised (ascii ''other parameters'') \<and>
   strict_params (ascii ''a.pdf'')
     \<lparr>line_margin = 0.5, word_margin = 0.2, char_margin = 2.0,
      boxes_flow = 0.5, all_texts = False\<rparr> = Raised (ascii ''other parameters'') \<and>
   fst (extract_pdf_text strict_params (ascii ''a.pdf'') w0) =
     [(ascii ''success'', PyBool True),
      (ascii ''text'', PyStr (ascii ''ok'')),
      (ascii ''length'', PyInt 2),
      (ascii ''error'', PyNone)] \<and>
   extract_calls (snd (extract_pdf_text strict_params (ascii ''a.pdf'') w0)) =
     [(ascii ''a.pdf'', \<lparr>line_margin = 0.5, word_margin = 0.1, char_margin = 2.0,
                          boxes_flow = 0.5, all_texts = False\<rparr>)] \<and>
   stdout (snd (main strict_params argv1 w0)) =
     json_dumps [(ascii ''success'', PyBool True),
                 (ascii ''text'', PyStr (ascii ''ok'')),
                 (ascii ''length'', PyInt 2),
                 (ascii ''error'', PyNone)] @ [0x0A]"
proof -
  have ne: "ascii ''ok'' \<noteq> []" and len: "int (length (ascii ''ok'')) = 2"
    by (simp_all add: ascii_def)
  have arg: "argv1 ! 1 = ascii ''a.pdf''" and two: "length argv1 = 2"
    by (simp_all add: argv1_def)
  from laparams_fixed [of strict_params "ascii ''a.pdf''" w0 argv1]
  show ?thesis
    by (simp add: strict_params_def strip_ok ne len arg two w0_def)
qed

text \<open>
  C10. In every success record of \<^verbatim>\<open>extract_pdf_text\<close> the text is not empty, so that
  \<^verbatim>\<open>length\<close> is at least 1, and it is already trimmed: stripping it again changes
  nothing, and it neither starts nor ends with white space.
\<close>

theorem success_text_trimmed:
  assumes "map_of (fst (extract_pdf_text extract_text pdf_path w)) (ascii ''success'') =
             Some (PyBool True)"
  shows "\<exists>t. map_of (fst (extract_pdf_text extract_text pdf_path w)) (ascii ''text'') =
               Some (PyStr t) \<and>
             map_of (fst (extract_pdf_text extract_text pdf_path w)) (ascii ''length'') =
               Some (PyInt (int (length t))) \<and>
             t \<noteq> [] \<and> 1 \<le> length t \<and> py_strip t = t \<and>
             \<not> py_isspace (hd t) \<and> \<not> py_isspace (last t)"
proof (cases "extract_text pdf_path LAPARAMS")
  case (Raised e)
  with assms show ?thesis by (simp add: extract_pdf_text_cases)
next
  case (Returned s)
  with assms have ne: "py_strip s \<noteq> []"
    by (auto simp: extract_pdf_text_cases split: if_splits)
  then have "1 \<le> length (py_strip s)"
    by (cases "py_strip s") simp_all
  with ne Returned show ?thesis
    by (simp add: extract_pdf_text_cases py_strip_idem py_strip_hd py_strip_last)
qed

theorem success_text_trimmed_witness:
  "map_of (fst (extract_pdf_text some_text (ascii ''a.pdf'') w0)) (ascii ''success'') =
     Some (PyBool True) \<and>
   (\<exists>t. map_of (fst (extract_pdf_text some_text (ascii ''a.pdf'') w0)) (ascii ''text'') =
          Some (PyStr t) \<and>
        map_of (fst (extract_pdf_text some_text (ascii ''a.pdf'') w0)) (ascii ''length'') =
          Some (PyInt (int (length t))) \<and>
        t \<noteq> [] \<and> 1 \<le> length t \<and> py_strip t = t \<and>
        \<not> py_isspace (hd t) \<and> \<not> py_isspace (last t))"
proof -
  have h: "map_of (fst (extract_pdf_text some_text (ascii ''a.pdf'') w0)) (ascii ''success'') =
             Some (PyBool True)"
    by (simp add: extract_pdf_text_cases some_text_def strip_hello) (simp add: ascii_def)
  from success_text_trimmed [OF h] h show ?thesis by (simp only: simp_thms)
qed

end
